theory Spec2Isabelle
  imports Main
begin

section \<open>The MediaWiki dump parser of wikitextprocessor/dumpparser.py\<close>

text \<open>
  \<open>DumpParser.__iter__\<close> opens the dump, walks it with
  \<open>xml.etree.ElementTree.iterparse\<close> and, at every \<open>end\<close> event, dispatches on the
  tag of the finished element through the table \<open>tag2fn\<close>: a \<open>namespace\<close> element is
  handed to \<open>add_namespace\<close>, a \<open>page\<close> element to \<open>make_wikipage\<close>, whose result is
  yielded. The regex scanner of the same method (\<open>handle_start\<close>, \<open>handle_end\<close>,
  \<open>parse_attrs\<close>) is never called: the loop that drove it is commented out.

  The embedding starts at the parsed document: an element tree as ElementTree builds it.
  Opening and decompressing the file and the tokenising done by expat are the library's.
\<close>

subsection \<open>Elements\<close>

text \<open>
  An \<open>xml.etree.ElementTree.Element\<close>: its tag (with the namespace URI in braces in
  front, as ElementTree writes it), its attribute dictionary, its text (\<open>None\<close> when the
  element has no character data before its first child or its end) and its children in
  document order. The source reads nothing else of an element.
\<close>

datatype element =
  Element (tag: string) (attrib: "string \<rightharpoonup> string") (elem_text: "string option")
    (children: "element list")

text \<open>The two constants of \<open>DumpParser.__init__\<close> that the walker uses.\<close>

definition mediawiki_xmlns :: string where
  "mediawiki_xmlns = ''{http://www.mediawiki.org/xml/export-0.10/}''"

text \<open>\<open>self.xmlns\<close> has the one entry \<open>"" \<mapsto> uri\<close>; this is the URI.\<close>

definition xmlns :: string where
  "xmlns = ''http://www.mediawiki.org/xml/export-0.10/''"

text \<open>
  ElementPath with a default namespace rewrites a tag \<open>t\<close> without prefix to
  \<open>"{uri}t"\<close> before it compares.
\<close>

definition qualify :: "string \<Rightarrow> string" where
  "qualify t = ''{'' @ xmlns @ ''}'' @ t"

text \<open>
  \<open>iterfind\<close> on a path of child steps: \<open>"title"\<close> is the path \<open>[''title'']\<close> and
  \<open>"./revision/text"\<close> the path \<open>[''revision'', ''text'']\<close> (the leading \<open>.\<close> selects the
  element itself). The matches come in document order.
\<close>

fun iterfind :: "string list \<Rightarrow> element \<Rightarrow> element list" where
  "iterfind [] e = [e]"
| "iterfind (t # ts) e =
     concat (map (iterfind ts) (filter (\<lambda>c. tag c = qualify t) (children e)))"

text \<open>\<open>Element.find\<close>: the first match, or \<open>None\<close>.\<close>

definition find_elem :: "string list \<Rightarrow> element \<Rightarrow> element option" where
  "find_elem path e = (case iterfind path e of [] \<Rightarrow> None | c # _ \<Rightarrow> Some c)"

text \<open>
  \<open>Element.findtext\<close> with the default \<open>None\<close>: the text of the first match, the
  empty string when that element has no text, \<open>None\<close> when nothing matches.
\<close>

definition findtext :: "string list \<Rightarrow> element \<Rightarrow> string option" where
  "findtext path e =
     (case iterfind path e of
        [] \<Rightarrow> None
      | c # _ \<Rightarrow> Some (case elem_text c of None \<Rightarrow> [] | Some s \<Rightarrow> s))"

text \<open>
  \<open>iterparse(f, events=("start", "end"))\<close>: the loop does nothing at a \<open>start\<close> event,
  so only the \<open>end\<close> events are kept. An element ends after all of its children have
  ended, and it is complete at that moment.
\<close>

fun end_events :: "element \<Rightarrow> element list" where
  "end_events (Element t a x cs) = concat (map end_events cs) @ [Element t a x cs]"

subsection \<open>Records and parser state\<close>

record WikiNamespace =
  ns :: string
  key :: string

text \<open>
  \<open>WikiPage\<close>; the field \<open>ns\<close> of the source, which holds the \<open>WikiNamespace\<close>
  object, is \<open>ns_obj\<close> here (the name of the local the source passes for it), and
  the field \<open>text\<close> is \<open>page_text\<close>.
\<close>

record WikiPage =
  title :: "string option"
  page_text :: "string option"
  model :: "string option"
  ns_obj :: WikiNamespace
  redirect :: "string option"

text \<open>
  The slots of \<open>DumpParser\<close> that the walker reads or writes: the two dictionaries of
  the namespace registry. The other slots belong to the regex scanner.
\<close>

record DumpParser =
  key2ns :: "string \<rightharpoonup> string"
  ns2key :: "string \<rightharpoonup> string"

text \<open>\<open>DumpParser.__init__\<close>: both dictionaries start empty.\<close>

definition init :: DumpParser where
  "init = \<lparr>key2ns = Map.empty, ns2key = Map.empty\<rparr>"

text \<open>
  The one exception the walker's own code raises is Python's \<open>KeyError\<close>, from a
  dictionary subscript; it carries the missing key, which is \<open>None\<close> when a page has no
  \<open>ns\<close> child.
\<close>

datatype error = KeyError "string option"

subsection \<open>The two handlers\<close>

text \<open>
  \<open>add_namespace\<close>: \<open>elem.text or ""\<close> is computed first, then \<open>elem.attrib["key"]\<close>
  raises when the attribute is missing, before either dictionary is written.
\<close>

definition add_namespace :: "DumpParser \<Rightarrow> element \<Rightarrow> error + DumpParser" where
  "add_namespace self elem =
     (let n = (case elem_text elem of None \<Rightarrow> [] | Some s \<Rightarrow> s) in
      case attrib elem ''key'' of
        None \<Rightarrow> Inl (KeyError (Some ''key''))
      | Some k \<Rightarrow>
          Inr (self\<lparr>key2ns := (key2ns self)(k \<mapsto> n), ns2key := (ns2key self)(n \<mapsto> k)\<rparr>))"

text \<open>
  \<open>make_wikipage\<close>, in the order of the source: three \<open>findtext\<close> calls, the registry
  subscript \<open>self.key2ns[key]\<close> (which raises for a key that is not registered, and for
  \<open>None\<close>: the registry only ever holds the strings \<open>add_namespace\<close> stored), the model,
  the redirect (\<open>attrib["title"]\<close> raises when the attribute is missing), and the record.
\<close>

definition make_wikipage :: "DumpParser \<Rightarrow> element \<Rightarrow> error + WikiPage" where
  "make_wikipage self elem =
     (let title' = findtext [''title''] elem;
          text' = findtext [''revision'', ''text''] elem;
          key' = findtext [''ns''] elem
      in case key' of
        None \<Rightarrow> Inl (KeyError None)
      | Some k \<Rightarrow>
         (case key2ns self k of
            None \<Rightarrow> Inl (KeyError (Some k))
          | Some n \<Rightarrow>
             (let model' = findtext [''revision'', ''model''] elem;
                  ns_obj' = \<lparr>ns = n, key = k\<rparr>
              in case find_elem [''redirect''] elem of
                None \<Rightarrow>
                  Inr \<lparr>title = title', page_text = text', model = model', ns_obj = ns_obj',
                       redirect = None\<rparr>
              | Some redirect_elem \<Rightarrow>
                 (case attrib redirect_elem ''title'' of
                    None \<Rightarrow> Inl (KeyError (Some ''title''))
                  | Some r \<Rightarrow>
                      Inr \<lparr>title = title', page_text = text', model = Some ''redirect'',
                           ns_obj = ns_obj', redirect = Some r\<rparr>))))"

subsection \<open>The dispatch loop\<close>

datatype handler = Add_namespace | Make_wikipage

definition namespace_tag :: string where
  "namespace_tag = mediawiki_xmlns @ ''namespace''"

definition page_tag :: string where
  "page_tag = mediawiki_xmlns @ ''page''"

definition tag2fn :: "string \<rightharpoonup> handler" where
  "tag2fn = [namespace_tag \<mapsto> Add_namespace, page_tag \<mapsto> Make_wikipage]"

text \<open>
  The body of the \<open>for\<close> loop over the \<open>end\<close> events. The result is what a consumer
  that drains the generator sees: the records yielded, in order; the parser object as the
  iteration left it; and the exception that ended the iteration, if one did (the
  \<open>except\<close> clause prints and raises it again). \<open>add_namespace\<close> returns \<open>None\<close>, so
  nothing is yielded for it; \<open>make_wikipage\<close> returns a record, which is yielded.
\<close>

fun iter_events :: "DumpParser \<Rightarrow> element list \<Rightarrow> WikiPage list \<times> DumpParser \<times> error option"
  where
  "iter_events self [] = ([], self, None)"
| "iter_events self (elem # rest) =
     (case tag2fn (tag elem) of
        None \<Rightarrow> iter_events self rest
      | Some Add_namespace \<Rightarrow>
         (case add_namespace self elem of
            Inl err \<Rightarrow> ([], self, Some err)
          | Inr self' \<Rightarrow> iter_events self' rest)
      | Some Make_wikipage \<Rightarrow>
         (case make_wikipage self elem of
            Inl err \<Rightarrow> ([], self, Some err)
          | Inr page \<Rightarrow>
             (case iter_events self rest of
                (pages, self', raised) \<Rightarrow> (page # pages, self', raised))))"

text \<open>\<open>DumpParser.__iter__\<close> on a parsed document.\<close>

definition DumpParser_iter :: "DumpParser \<Rightarrow> element \<Rightarrow> WikiPage list \<times> DumpParser \<times> error option"
  where
  "DumpParser_iter self root = iter_events self (end_events root)"

subsection \<open>Well-formed dumps\<close>

text \<open>
  What the specification calls a well-formed dump, read off its input schema and its
  data model, over the \<open>end\<close> events in document order and the set of namespace keys
  declared so far:
  \<^item> every namespace declaration carries a \<open>key\<close> attribute, and keys are unique within
    one parse;
  \<^item> every page has an \<open>ns\<close> child whose text is a key declared before the page ends;
  \<^item> a \<open>redirect\<close> child of a page carries its \<open>title\<close> attribute.
\<close>

fun well_formed_events :: "string set \<Rightarrow> element list \<Rightarrow> bool" where
  "well_formed_events declared [] = True"
| "well_formed_events declared (elem # rest) =
     (if tag elem = namespace_tag then
        (case attrib elem ''key'' of
           None \<Rightarrow> False
         | Some k \<Rightarrow> k \<notin> declared \<and> well_formed_events (insert k declared) rest)
      else if tag elem = page_tag then
        (case findtext [''ns''] elem of None \<Rightarrow> False | Some k \<Rightarrow> k \<in> declared) \<and>
        (case find_elem [''redirect''] elem of
           None \<Rightarrow> True
         | Some r \<Rightarrow> attrib r ''title'' \<noteq> None) \<and>
        well_formed_events declared rest
      else well_formed_events declared rest)"

definition well_formed_dump :: "element \<Rightarrow> bool" where
  "well_formed_dump root = well_formed_events {} (end_events root)"

text \<open>The page elements and the namespace declarations of a dump, in the order they end.\<close>

definition page_elements :: "element \<Rightarrow> element list" where
  "page_elements root = filter (\<lambda>e. tag e = page_tag) (end_events root)"

definition namespace_elements :: "element \<Rightarrow> element list" where
  "namespace_elements root = filter (\<lambda>e. tag e = namespace_tag) (end_events root)"

subsection \<open>Fixtures\<close>

text \<open>
  Small documents in the export schema, for evaluating the parser. \<open>leaf\<close> is an
  element without attributes and children, \<open>node\<close> one without attributes and text.
\<close>

definition leaf :: "string \<Rightarrow> string option \<Rightarrow> element" where
  "leaf t x = Element (mediawiki_xmlns @ t) Map.empty x []"

definition node :: "string \<Rightarrow> element list \<Rightarrow> element" where
  "node t cs = Element (mediawiki_xmlns @ t) Map.empty None cs"

text \<open>\<open><namespace key="0"/>\<close>, \<open><namespace key="1">Talk</namespace>\<close> and \<open><namespace/>\<close>.\<close>

definition ex_namespace_main :: element where
  "ex_namespace_main = Element namespace_tag [''key'' \<mapsto> ''0''] None []"

definition ex_namespace_talk :: element where
  "ex_namespace_talk = Element namespace_tag [''key'' \<mapsto> ''1''] (Some ''Talk'') []"

definition ex_namespace_no_key :: element where
  "ex_namespace_no_key = Element namespace_tag Map.empty (Some ''Talk'') []"

text \<open>The parser after \<open><namespace key="0"/>\<close>, and after both declarations.\<close>

definition ex_parser :: DumpParser where
  "ex_parser = \<lparr>key2ns = [''0'' \<mapsto> []], ns2key = [[] \<mapsto> ''0'']\<rparr>"

definition ex_parser_talk :: DumpParser where
  "ex_parser_talk =
     \<lparr>key2ns = [''0'' \<mapsto> [], ''1'' \<mapsto> ''Talk''],
      ns2key = [[] \<mapsto> ''0'', ''Talk'' \<mapsto> ''1'']\<rparr>"

text \<open>An ordinary page: title, namespace key, one revision with model and text.\<close>

definition ex_plain_page :: element where
  "ex_plain_page =
     node ''page''
       [leaf ''title'' (Some ''Foo''), leaf ''ns'' (Some ''0''),
        node ''revision''
          [leaf ''model'' (Some ''wikitext''), leaf ''text'' (Some ''BODY'')]]"

text \<open>A redirect page as a dump holds it: the revision text is the redirect directive.\<close>

definition ex_redirect_page :: element where
  "ex_redirect_page =
     node ''page''
       [leaf ''title'' (Some ''Bar''), leaf ''ns'' (Some ''0''),
        Element (mediawiki_xmlns @ ''redirect'') [''title'' \<mapsto> ''X''] None [],
        node ''revision''
          [leaf ''model'' (Some ''wikitext''), leaf ''text'' (Some ''#REDIRECT [[X]]'')]]"

text \<open>A page without a \<open>title\<close> child.\<close>

definition ex_untitled_page :: element where
  "ex_untitled_page =
     node ''page''
       [leaf ''ns'' (Some ''0''),
        node ''revision''
          [leaf ''model'' (Some ''wikitext''), leaf ''text'' (Some ''BODY'')]]"

text \<open>
  A page without a \<open>redirect\<close> child and without a \<open>text\<close> element, whose revision
  declares the model \<open>redirect\<close>.
\<close>

definition ex_model_redirect_page :: element where
  "ex_model_redirect_page =
     node ''page''
       [leaf ''title'' (Some ''Baz''), leaf ''ns'' (Some ''0''),
        node ''revision'' [leaf ''model'' (Some ''redirect'')]]"

text \<open>A page whose namespace key is \<open>7\<close>.\<close>

definition ex_unknown_ns_page :: element where
  "ex_unknown_ns_page =
     node ''page''
       [leaf ''title'' (Some ''Qux''), leaf ''ns'' (Some ''7''),
        node ''revision''
          [leaf ''model'' (Some ''wikitext''), leaf ''text'' (Some ''BODY'')]]"

text \<open>A dump with two namespace declarations and two pages.\<close>

definition ex_dump :: element where
  "ex_dump =
     node ''mediawiki''
       [node ''siteinfo''
          [leaf ''sitename'' (Some ''Wiktionary''),
           node ''namespaces'' [ex_namespace_main, ex_namespace_talk]],
        ex_plain_page, ex_redirect_page]"

section \<open>Properties\<close>

subsection \<open>Dispatch, evaluation and the loop over a prefix\<close>

lemma qualify_eq: "qualify t = mediawiki_xmlns @ t"
  by (simp add: qualify_def xmlns_def mediawiki_xmlns_def)

lemma tag2fn_namespace: "tag2fn namespace_tag = Some Add_namespace"
  by (simp add: tag2fn_def namespace_tag_def page_tag_def)

lemma tag2fn_page: "tag2fn page_tag = Some Make_wikipage"
  by (simp add: tag2fn_def)

lemma page_tag_neq: "page_tag \<noteq> namespace_tag"
  by (simp add: namespace_tag_def page_tag_def)

lemma tag2fn_cases:
  "tag2fn t = (if t = page_tag then Some Make_wikipage
               else if t = namespace_tag then Some Add_namespace else None)"
  by (simp add: tag2fn_def)

lemmas fixture_defs =
  leaf_def node_def ex_namespace_main_def ex_namespace_talk_def ex_namespace_no_key_def
  ex_parser_def ex_parser_talk_def ex_plain_page_def ex_redirect_page_def ex_untitled_page_def
  ex_model_redirect_page_def ex_unknown_ns_page_def ex_dump_def

lemmas eval_defs =
  tag2fn_cases namespace_tag_def page_tag_def add_namespace_def make_wikipage_def
  findtext_def find_elem_def qualify_eq Let_def init_def

lemma map_add_self: "m ++ m = m"
  by (rule ext) (simp add: map_add_def split: option.split)

lemma DumpParser_eqI:
  fixes S T :: DumpParser
  shows "key2ns T = key2ns S \<Longrightarrow> ns2key T = ns2key S \<Longrightarrow> T = S"
  by (cases S, cases T) simp

lemma add_namespace_key:
  "attrib elem ''key'' = Some k \<Longrightarrow>
   add_namespace self elem =
     Inr (self\<lparr>key2ns := (key2ns self)(k \<mapsto> (case elem_text elem of None \<Rightarrow> [] | Some s \<Rightarrow> s)),
               ns2key := (ns2key self)((case elem_text elem of None \<Rightarrow> [] | Some s \<Rightarrow> s) \<mapsto> k)\<rparr>)"
  by (simp add: add_namespace_def Let_def)

lemma add_namespace_no_key:
  "attrib elem ''key'' = None \<Longrightarrow> add_namespace self elem = Inl (KeyError (Some ''key''))"
  by (simp add: add_namespace_def)

lemma findtext_None_iff: "findtext path e = None \<longleftrightarrow> iterfind path e = []"
  by (simp add: findtext_def split: list.split)

text \<open>
  When the loop gets through a prefix of the events without an exception, it goes on
  with the rest from the state the prefix left, and the records of the rest follow those
  of the prefix.
\<close>

lemma iter_events_append:
  "iter_events self pre = (ps, self', None) \<Longrightarrow>
   iter_events self (pre @ rest) =
     (case iter_events self' rest of (qs, self'', r) \<Rightarrow> (ps @ qs, self'', r))"
proof (induction pre arbitrary: self ps)
  case Nil
  then show ?case by (simp split: prod.splits)
next
  case (Cons e pre)
  show ?case
  proof (cases "tag2fn (tag e)")
    case None
    with Cons show ?thesis by simp
  next
    case (Some h)
    show ?thesis
    proof (cases h)
      case Add_namespace
      with Some Cons show ?thesis by (auto split: sum.splits)
    next
      case Make_wikipage
      with Some Cons.prems obtain p qs where
        p: "make_wikipage self e = Inr p" and
        qs: "iter_events self pre = (qs, self', None)" and ps: "ps = p # qs"
        by (auto split: sum.splits prod.splits)
      from Cons.IH [OF qs] Some Make_wikipage p ps show ?thesis
        by (simp split: prod.splits)
    qed
  qed
qed

lemma iter_events_page_last:
  assumes "iter_events S pre = (ps, S', None)" and "tag elem = page_tag"
  shows "iter_events S (pre @ [elem]) =
           (case make_wikipage S' elem of
              Inl err \<Rightarrow> (ps, S', Some err)
            | Inr p \<Rightarrow> (ps @ [p], S', None))"
  using iter_events_append [OF assms(1), of "[elem]"] assms(2)
  by (simp add: tag2fn_page split: sum.splits)

text \<open>A key of the registry was there at the start or was declared on the way.\<close>

lemma iter_events_key2ns_origin:
  "iter_events S evs = (ps, S', r) \<Longrightarrow> key2ns S' k = Some n \<Longrightarrow>
   key2ns S k = Some n \<or> (\<exists>e \<in> set evs. tag e = namespace_tag \<and> attrib e ''key'' = Some k)"
proof (induction evs arbitrary: S ps)
  case Nil
  then show ?case by simp
next
  case (Cons e evs)
  consider (ns) "tag e = namespace_tag" | (page) "tag e = page_tag"
    | (other) "tag e \<noteq> namespace_tag" "tag e \<noteq> page_tag"
    by blast
  then show ?case
  proof cases
    case ns
    show ?thesis
    proof (cases "attrib e ''key''")
      case None
      with ns Cons.prems show ?thesis
        by (simp add: tag2fn_namespace add_namespace_no_key)
    next
      case (Some k')
      define S1 where
        "S1 = S\<lparr>key2ns := (key2ns S)(k' \<mapsto> (case elem_text e of None \<Rightarrow> [] | Some s \<Rightarrow> s)),
                ns2key := (ns2key S)((case elem_text e of None \<Rightarrow> [] | Some s \<Rightarrow> s) \<mapsto> k')\<rparr>"
      from Some have add: "add_namespace S e = Inr S1"
        by (simp add: add_namespace_key S1_def)
      with ns Cons.prems(1) have "iter_events S1 evs = (ps, S', r)"
        by (simp add: tag2fn_namespace)
      from Cons.IH [OF this Cons.prems(2)] show ?thesis
      proof
        assume "key2ns S1 k = Some n"
        then show ?thesis using ns Some by (cases "k = k'") (simp_all add: S1_def)
      next
        assume "\<exists>e \<in> set evs. tag e = namespace_tag \<and> attrib e ''key'' = Some k"
        then show ?thesis by auto
      qed
    qed
  next
    case page
    show ?thesis
    proof (cases "make_wikipage S e")
      case (Inl err)
      with page Cons.prems show ?thesis by (simp add: tag2fn_page)
    next
      case (Inr p)
      with page Cons.prems(1) obtain qs where "iter_events S evs = (qs, S', r)"
        by (auto simp: tag2fn_page split: prod.splits)
      from Cons.IH [OF this Cons.prems(2)] show ?thesis by auto
    qed
  next
    case other
    then have "tag2fn (tag e) = None" by (simp add: tag2fn_cases)
    with Cons.prems(1) have "iter_events S evs = (ps, S', r)" by simp
    from Cons.IH [OF this Cons.prems(2)] show ?thesis by auto
  qed
qed

subsection \<open>The namespace registry\<close>

text \<open>
  Claim C7. A finished namespace declaration that carries a \<open>key\<close> attribute \<open>k\<close> and
  text \<open>n\<close> (the name, possibly empty) is processed without an exception and without
  yielding anything, and afterwards the registry maps \<open>k\<close> to \<open>n\<close> in \<open>key2ns\<close> and
  \<open>n\<close> to \<open>k\<close> in \<open>ns2key\<close>; every other entry of both dictionaries is as before.
\<close>

theorem add_namespace_registers_both_directions:
  assumes "tag elem = namespace_tag" and "attrib elem ''key'' = Some k"
    and "elem_text elem = Some n"
  shows "\<exists>self'. add_namespace self elem = Inr self' \<and>
           iter_events self [elem] = ([], self', None) \<and>
           key2ns self' k = Some n \<and> ns2key self' n = Some k \<and>
           (\<forall>k'. k' \<noteq> k \<longrightarrow> key2ns self' k' = key2ns self k') \<and>
           (\<forall>n'. n' \<noteq> n \<longrightarrow> ns2key self' n' = ns2key self n')"
  using assms by (simp add: tag2fn_namespace add_namespace_key)

theorem add_namespace_registers_both_directions_witness:
  "tag ex_namespace_talk = namespace_tag \<and> attrib ex_namespace_talk ''key'' = Some ''1'' \<and>
   elem_text ex_namespace_talk = Some ''Talk'' \<and>
   (\<exists>self'. add_namespace ex_parser ex_namespace_talk = Inr self' \<and>
      iter_events ex_parser [ex_namespace_talk] = ([], self', None) \<and>
      key2ns self' ''1'' = Some ''Talk'' \<and> ns2key self' ''Talk'' = Some ''1'')"
proof -
  have h: "tag ex_namespace_talk = namespace_tag" "attrib ex_namespace_talk ''key'' = Some ''1''"
    "elem_text ex_namespace_talk = Some ''Talk''"
    by (simp_all add: ex_namespace_talk_def)
  from add_namespace_registers_both_directions [OF h, of ex_parser] h show ?thesis
    by blast
qed

text \<open>
  Claim C8. A namespace declaration without a \<open>key\<close> attribute makes \<open>add_namespace\<close>
  raise (the \<open>KeyError\<close> of the attribute subscript). The iteration ends there: the
  consumer has received the records of the events before it, nothing of the later events
  is processed, and the registry is the one the earlier events left, with no entry for
  this declaration.
\<close>

theorem namespace_without_key_is_fatal:
  assumes "iter_events self0 pre = (ps, self, None)"
    and "tag elem = namespace_tag" and "attrib elem ''key'' = None"
  shows "add_namespace self elem = Inl (KeyError (Some ''key'')) \<and>
         iter_events self0 (pre @ elem # rest) = (ps, self, Some (KeyError (Some ''key'')))"
  using iter_events_append [OF assms(1), of "elem # rest"] assms(2,3)
  by (simp add: tag2fn_namespace add_namespace_no_key)

theorem namespace_without_key_is_fatal_witness:
  "iter_events init [ex_namespace_main, ex_plain_page] =
     ([\<lparr>title = Some ''Foo'', page_text = Some ''BODY'', model = Some ''wikitext'',
        ns_obj = \<lparr>ns = [], key = ''0''\<rparr>, redirect = None\<rparr>], ex_parser, None) \<and>
   tag ex_namespace_no_key = namespace_tag \<and> attrib ex_namespace_no_key ''key'' = None \<and>
   add_namespace ex_parser ex_namespace_no_key = Inl (KeyError (Some ''key'')) \<and>
   iter_events init ([ex_namespace_main, ex_plain_page] @ ex_namespace_no_key # [ex_redirect_page]) =
     ([\<lparr>title = Some ''Foo'', page_text = Some ''BODY'', model = Some ''wikitext'',
        ns_obj = \<lparr>ns = [], key = ''0''\<rparr>, redirect = None\<rparr>], ex_parser,
      Some (KeyError (Some ''key'')))"
proof -
  have run: "iter_events init [ex_namespace_main, ex_plain_page] =
     ([\<lparr>title = Some ''Foo'', page_text = Some ''BODY'', model = Some ''wikitext'',
        ns_obj = \<lparr>ns = [], key = ''0''\<rparr>, redirect = None\<rparr>], ex_parser, None)"
    by (simp add: eval_defs fixture_defs)
  have h: "tag ex_namespace_no_key = namespace_tag" "attrib ex_namespace_no_key ''key'' = None"
    by (simp_all add: ex_namespace_no_key_def)
  from namespace_without_key_is_fatal [OF run h, of "[ex_redirect_page]"] run h
  show ?thesis by blast
qed

text \<open>
  Claim C9. A namespace declaration whose text is absent (a self-closing tag, as for the
  default namespace) is registered under the empty string: \<open>key2ns\<close> maps its key to
  \<open>""\<close> and \<open>ns2key\<close> maps \<open>""\<close> to its key. The values of \<open>key2ns\<close> are strings by
  the type of the dictionary in this embedding, which is the type of \<open>elem.text or ""\<close>.
\<close>

theorem namespace_without_text_registers_empty_name:
  assumes "tag elem = namespace_tag" and "attrib elem ''key'' = Some k"
    and "elem_text elem = None"
  shows "\<exists>self'. add_namespace self elem = Inr self' \<and>
           iter_events self [elem] = ([], self', None) \<and>
           key2ns self' k = Some [] \<and> ns2key self' [] = Some k"
  using assms by (simp add: tag2fn_namespace add_namespace_key)

theorem namespace_without_text_registers_empty_name_witness:
  "tag ex_namespace_main = namespace_tag \<and> attrib ex_namespace_main ''key'' = Some ''0'' \<and>
   elem_text ex_namespace_main = None \<and>
   (\<exists>self'. add_namespace init ex_namespace_main = Inr self' \<and>
      iter_events init [ex_namespace_main] = ([], self', None) \<and>
      key2ns self' ''0'' = Some [] \<and> ns2key self' [] = Some ''0'')"
proof -
  have h: "tag ex_namespace_main = namespace_tag" "attrib ex_namespace_main ''key'' = Some ''0''"
    "elem_text ex_namespace_main = None"
    by (simp_all add: ex_namespace_main_def)
  from namespace_without_text_registers_empty_name [OF h, of init] h show ?thesis
    by blast
qed

subsection \<open>Assembling a page record\<close>

text \<open>
  Claim C3. When a page element ends whose \<open>ns\<close> text is a key \<open>k\<close> that no namespace
  declaration before it has registered, the registry subscript in \<open>make_wikipage\<close> raises
  (the \<open>KeyError\<close> of \<open>k\<close>). The page is not skipped and no record is yielded for it:
  the iteration of a fresh parser ends there with that exception, after the records of
  the earlier events.
\<close>

theorem unknown_namespace_key_is_fatal:
  assumes "iter_events init pre = (ps, self, None)"
    and "\<forall>e \<in> set pre. tag e = namespace_tag \<longrightarrow> attrib e ''key'' \<noteq> Some k"
    and "tag elem = page_tag" and "findtext [''ns''] elem = Some k"
  shows "make_wikipage self elem = Inl (KeyError (Some k)) \<and>
         iter_events init (pre @ elem # rest) = (ps, self, Some (KeyError (Some k)))"
proof -
  have "key2ns self k = None"
  proof (rule ccontr)
    assume "key2ns self k \<noteq> None"
    then obtain n where "key2ns self k = Some n" by blast
    from iter_events_key2ns_origin [OF assms(1) this] assms(2) show False
      by (auto simp: init_def)
  qed
  with assms(4) have raise: "make_wikipage self elem = Inl (KeyError (Some k))"
    by (simp add: make_wikipage_def)
  with iter_events_append [OF assms(1), of "elem # rest"] assms(3) show ?thesis
    by (simp add: tag2fn_page)
qed

theorem unknown_namespace_key_is_fatal_witness:
  "iter_events init [ex_namespace_main, ex_plain_page] =
     ([\<lparr>title = Some ''Foo'', page_text = Some ''BODY'', model = Some ''wikitext'',
        ns_obj = \<lparr>ns = [], key = ''0''\<rparr>, redirect = None\<rparr>], ex_parser, None) \<and>
   tag ex_unknown_ns_page = page_tag \<and> findtext [''ns''] ex_unknown_ns_page = Some ''7'' \<and>
   make_wikipage ex_parser ex_unknown_ns_page = Inl (KeyError (Some ''7'')) \<and>
   iter_events init ([ex_namespace_main, ex_plain_page] @ ex_unknown_ns_page # [ex_redirect_page]) =
     ([\<lparr>title = Some ''Foo'', page_text = Some ''BODY'', model = Some ''wikitext'',
        ns_obj = \<lparr>ns = [], key = ''0''\<rparr>, redirect = None\<rparr>], ex_parser,
      Some (KeyError (Some ''7'')))"
proof -
  have run: "iter_events init [ex_namespace_main, ex_plain_page] =
     ([\<lparr>title = Some ''Foo'', page_text = Some ''BODY'', model = Some ''wikitext'',
        ns_obj = \<lparr>ns = [], key = ''0''\<rparr>, redirect = None\<rparr>], ex_parser, None)"
    by (simp add: eval_defs fixture_defs)
  have fresh: "\<forall>e \<in> set [ex_namespace_main, ex_plain_page].
      tag e = namespace_tag \<longrightarrow> attrib e ''key'' \<noteq> Some ''7''"
    by (simp add: fixture_defs)
  have h: "tag ex_unknown_ns_page = page_tag" "findtext [''ns''] ex_unknown_ns_page = Some ''7''"
    by (simp_all add: eval_defs fixture_defs)
  from unknown_namespace_key_is_fatal [OF run fresh h, of "[ex_redirect_page]"] run h
  show ?thesis by blast
qed

text \<open>
  Claim C4. A page element without a \<open>redirect\<close> child whose namespace key is
  registered yields one record (and leaves the parser as it was), in which \<open>text\<close> is
  the text of the first \<open>text\<close> element under a \<open>revision\<close> child, absent exactly when
  no \<open>revision\<close> child has a \<open>text\<close> element; \<open>model\<close> is the text of the revision's
  \<open>model\<close> element; and \<open>redirect\<close> is absent. Every record yielded for a page without
  a \<open>redirect\<close> child is of this form, since a record is yielded only when the key is
  registered.
\<close>

theorem plain_page_record:
  assumes "tag elem = page_tag" and "find_elem [''redirect''] elem = None"
    and "findtext [''ns''] elem = Some k" and "key2ns self k = Some n"
  shows "iter_events self [elem] =
           ([\<lparr>title = findtext [''title''] elem,
              page_text = findtext [''revision'', ''text''] elem,
              model = findtext [''revision'', ''model''] elem,
              ns_obj = \<lparr>ns = n, key = k\<rparr>, redirect = None\<rparr>], self, None) \<and>
         (findtext [''revision'', ''text''] elem = None \<longleftrightarrow>
            iterfind [''revision'', ''text''] elem = []) \<and>
         (\<forall>page. make_wikipage self elem = Inr page \<longrightarrow>
            page_text page = findtext [''revision'', ''text''] elem \<and>
            model page = findtext [''revision'', ''model''] elem \<and> redirect page = None)"
proof -
  from assms(2-4) have
    "make_wikipage self elem =
       Inr \<lparr>title = findtext [''title''] elem,
            page_text = findtext [''revision'', ''text''] elem,
            model = findtext [''revision'', ''model''] elem,
            ns_obj = \<lparr>ns = n, key = k\<rparr>, redirect = None\<rparr>"
    by (simp add: make_wikipage_def)
  with assms(1) findtext_None_iff [of "[''revision'', ''text'']" elem] show ?thesis
    by (simp add: tag2fn_page del: iterfind.simps)
qed

theorem plain_page_record_witness:
  "tag ex_plain_page = page_tag \<and> find_elem [''redirect''] ex_plain_page = None \<and>
   findtext [''ns''] ex_plain_page = Some ''0'' \<and> key2ns ex_parser ''0'' = Some [] \<and>
   iter_events ex_parser [ex_plain_page] =
     ([\<lparr>title = Some ''Foo'', page_text = Some ''BODY'', model = Some ''wikitext'',
        ns_obj = \<lparr>ns = [], key = ''0''\<rparr>, redirect = None\<rparr>], ex_parser, None)"
proof -
  have h: "tag ex_plain_page = page_tag" "find_elem [''redirect''] ex_plain_page = None"
    "findtext [''ns''] ex_plain_page = Some ''0''" "key2ns ex_parser ''0'' = Some []"
    by (simp_all add: eval_defs fixture_defs)
  have f: "findtext [''title''] ex_plain_page = Some ''Foo''"
    "findtext [''revision'', ''text''] ex_plain_page = Some ''BODY''"
    "findtext [''revision'', ''model''] ex_plain_page = Some ''wikitext''"
    by (simp_all add: eval_defs fixture_defs)
  from plain_page_record [OF h] have
    "iter_events ex_parser [ex_plain_page] =
       ([\<lparr>title = findtext [''title''] ex_plain_page,
          page_text = findtext [''revision'', ''text''] ex_plain_page,
          model = findtext [''revision'', ''model''] ex_plain_page,
          ns_obj = \<lparr>ns = [], key = ''0''\<rparr>, redirect = None\<rparr>], ex_parser, None)"
    by blast
  with h f show ?thesis by simp
qed

text \<open>
  Claim C1. A page with a top-level \<open><redirect title="X"/>\<close> child should yield a
  record with \<open>redirect = "X"\<close>, the model \<open>"redirect"\<close> and no text. On the redirect
  page of the fixtures \<open>make_wikipage\<close> sets the redirect target and the model, and
  hands on the revision text it read before: the record's text is the redirect directive
  of the revision, not absent.
\<close>

theorem redirect_page_keeps_revision_text:
  "iter_events ex_parser [ex_redirect_page] =
     ([\<lparr>title = Some ''Bar'', page_text = Some ''#REDIRECT [[X]]'', model = Some ''redirect'',
        ns_obj = \<lparr>ns = [], key = ''0''\<rparr>, redirect = Some ''X''\<rparr>], ex_parser, None)"
  by (simp add: eval_defs fixture_defs)

text \<open>
  The record of a redirect page in general: for a page whose first \<open>redirect\<close> child
  carries the title \<open>x\<close> and whose namespace key is registered, the record has the
  redirect target \<open>x\<close> and the model \<open>"redirect"\<close>, whatever model the revision
  declares, and its text is the revision text as for any other page.
\<close>

lemma redirect_page_record:
  assumes "tag elem = page_tag" and "find_elem [''redirect''] elem = Some r"
    and "attrib r ''title'' = Some x"
    and "findtext [''ns''] elem = Some k" and "key2ns self k = Some n"
  shows "iter_events self [elem] =
           ([\<lparr>title = findtext [''title''] elem,
              page_text = findtext [''revision'', ''text''] elem,
              model = Some ''redirect'',
              ns_obj = \<lparr>ns = n, key = k\<rparr>, redirect = Some x\<rparr>], self, None)"
  using assms by (simp add: tag2fn_page make_wikipage_def)

lemma redirect_page_record_witness:
  "tag ex_redirect_page = page_tag \<and>
   find_elem [''redirect''] ex_redirect_page =
     Some (Element (mediawiki_xmlns @ ''redirect'') [''title'' \<mapsto> ''X''] None []) \<and>
   findtext [''ns''] ex_redirect_page = Some ''0'' \<and> key2ns ex_parser ''0'' = Some [] \<and>
   iter_events ex_parser [ex_redirect_page] =
     ([\<lparr>title = findtext [''title''] ex_redirect_page,
        page_text = findtext [''revision'', ''text''] ex_redirect_page,
        model = Some ''redirect'',
        ns_obj = \<lparr>ns = [], key = ''0''\<rparr>, redirect = Some ''X''\<rparr>], ex_parser, None)"
proof -
  have h: "tag ex_redirect_page = page_tag"
    "find_elem [''redirect''] ex_redirect_page =
       Some (Element (mediawiki_xmlns @ ''redirect'') [''title'' \<mapsto> ''X''] None [])"
    "attrib (Element (mediawiki_xmlns @ ''redirect'') [''title'' \<mapsto> ''X''] None []) ''title'' =
       Some ''X''"
    "findtext [''ns''] ex_redirect_page = Some ''0''" "key2ns ex_parser ''0'' = Some []"
    by (simp_all add: eval_defs fixture_defs)
  from redirect_page_record [OF h] h show ?thesis by blast
qed

text \<open>
  Claim C2, as amended. \<open>make_wikipage\<close> does not look at the title it read. A page
  element whose \<open>title\<close> child is absent or has empty text, whose namespace key is
  registered and whose \<open>redirect\<close> child, if it has one, carries a \<open>title\<close>
  attribute, yields a record: its title is absent when there is no \<open>title\<close> child and
  the empty string when the child has no text. No exception is raised.
\<close>

theorem missing_title_is_not_an_error:
  assumes "tag elem = page_tag"
    and "findtext [''title''] elem = None \<or> findtext [''title''] elem = Some []"
    and "findtext [''ns''] elem = Some k" and "key2ns self k = Some n"
    and "\<forall>r. find_elem [''redirect''] elem = Some r \<longrightarrow> attrib r ''title'' \<noteq> None"
  shows "\<exists>page. make_wikipage self elem = Inr page \<and>
           iter_events self [elem] = ([page], self, None) \<and>
           title page = findtext [''title''] elem \<and>
           (title page = None \<longleftrightarrow> iterfind [''title''] elem = [])"
proof (cases "find_elem [''redirect''] elem")
  case None
  with assms(1,3,4) findtext_None_iff [of "[''title'']" elem] show ?thesis
    by (simp add: tag2fn_page make_wikipage_def del: iterfind.simps)
next
  case (Some r)
  with assms(5) obtain x where "attrib r ''title'' = Some x" by auto
  with Some assms(1,3,4) findtext_None_iff [of "[''title'']" elem] show ?thesis
    by (simp add: tag2fn_page make_wikipage_def del: iterfind.simps)
qed

theorem missing_title_is_not_an_error_witness:
  "tag ex_untitled_page = page_tag \<and> findtext [''title''] ex_untitled_page = None \<and>
   findtext [''ns''] ex_untitled_page = Some ''0'' \<and> key2ns ex_parser ''0'' = Some [] \<and>
   find_elem [''redirect''] ex_untitled_page = None \<and>
   (\<exists>page. make_wikipage ex_parser ex_untitled_page = Inr page \<and>
      iter_events ex_parser [ex_untitled_page] = ([page], ex_parser, None) \<and>
      title page = None)"
proof -
  have h: "tag ex_untitled_page = page_tag" "findtext [''title''] ex_untitled_page = None"
    "findtext [''ns''] ex_untitled_page = Some ''0''" "key2ns ex_parser ''0'' = Some []"
    "find_elem [''redirect''] ex_untitled_page = None"
    by (simp_all add: eval_defs fixture_defs)
  from h(2) have t: "findtext [''title''] ex_untitled_page = None \<or>
      findtext [''title''] ex_untitled_page = Some []" by simp
  from h(5) have r: "\<forall>r. find_elem [''redirect''] ex_untitled_page = Some r \<longrightarrow>
      attrib r ''title'' \<noteq> None" by simp
  from missing_title_is_not_an_error [OF h(1) t h(3,4) r] h show ?thesis
    by auto
qed

text \<open>
  The claim as the specification states it (a page without a title fails with a
  missing-title error, and no record with an absent title is yielded) is false for the
  page of the fixtures that has no \<open>title\<close> child: the iteration yields its record,
  with the title absent, and ends without an exception.
\<close>

theorem untitled_page_is_yielded:
  "iter_events ex_parser [ex_untitled_page] =
     ([\<lparr>title = None, page_text = Some ''BODY'', model = Some ''wikitext'',
        ns_obj = \<lparr>ns = [], key = ''0''\<rparr>, redirect = None\<rparr>], ex_parser, None)"
  by (simp add: eval_defs fixture_defs)

text \<open>
  Claim C5, as amended. In every record the parser yields, a redirect that is set comes
  with the model \<open>"redirect"\<close>. The converse does not hold: the redirect field is
  taken from the \<open>redirect\<close> element alone, never from the text or the model.
\<close>

theorem redirect_implies_model_redirect:
  "iter_events self evs = (ps, self', r) \<Longrightarrow> p \<in> set ps \<Longrightarrow> redirect p \<noteq> None \<Longrightarrow>
   model p = Some ''redirect''"
proof (induction evs arbitrary: self ps)
  case Nil
  then show ?case by simp
next
  case (Cons e evs)
  show ?case
  proof (cases "tag2fn (tag e)")
    case None
    with Cons show ?thesis by simp
  next
    case (Some h)
    show ?thesis
    proof (cases h)
      case Add_namespace
      with Some Cons show ?thesis by (auto split: sum.splits)
    next
      case Make_wikipage
      show ?thesis
      proof (cases "make_wikipage self e")
        case (Inl err)
        with Some Make_wikipage Cons.prems(1,2) show ?thesis by simp
      next
        case (Inr q)
        with Some Make_wikipage Cons.prems(1) obtain qs where
          qs: "iter_events self evs = (qs, self', r)" and ps: "ps = q # qs"
          by (auto split: prod.splits)
        from Inr have "redirect q \<noteq> None \<Longrightarrow> model q = Some ''redirect''"
          by (auto simp: make_wikipage_def Let_def split: option.splits)
        with Cons.IH [OF qs] Cons.prems(2,3) ps show ?thesis by auto
      qed
    qed
  qed
qed

theorem redirect_implies_model_redirect_witness:
  "iter_events ex_parser [ex_plain_page, ex_redirect_page] =
     ([\<lparr>title = Some ''Foo'', page_text = Some ''BODY'', model = Some ''wikitext'',
        ns_obj = \<lparr>ns = [], key = ''0''\<rparr>, redirect = None\<rparr>,
       \<lparr>title = Some ''Bar'', page_text = Some ''#REDIRECT [[X]]'', model = Some ''redirect'',
        ns_obj = \<lparr>ns = [], key = ''0''\<rparr>, redirect = Some ''X''\<rparr>], ex_parser, None) \<and>
   model \<lparr>title = Some ''Bar'', page_text = Some ''#REDIRECT [[X]]'', model = Some ''redirect'',
        ns_obj = \<lparr>ns = [], key = ''0''\<rparr>, redirect = Some ''X''\<rparr> = Some ''redirect''"
proof -
  have run: "iter_events ex_parser [ex_plain_page, ex_redirect_page] =
     ([\<lparr>title = Some ''Foo'', page_text = Some ''BODY'', model = Some ''wikitext'',
        ns_obj = \<lparr>ns = [], key = ''0''\<rparr>, redirect = None\<rparr>,
       \<lparr>title = Some ''Bar'', page_text = Some ''#REDIRECT [[X]]'', model = Some ''redirect'',
        ns_obj = \<lparr>ns = [], key = ''0''\<rparr>, redirect = Some ''X''\<rparr>], ex_parser, None)"
    by (simp add: eval_defs fixture_defs)
  have "model \<lparr>title = Some ''Bar'', page_text = Some ''#REDIRECT [[X]]'',
      model = Some ''redirect'', ns_obj = \<lparr>ns = [], key = ''0''\<rparr>, redirect = Some ''X''\<rparr> =
      Some ''redirect''"
    by (rule redirect_implies_model_redirect [OF run]) simp_all
  with run show ?thesis by blast
qed

text \<open>
  The equivalence of the specification fails from right to left. The page of the
  fixtures without a \<open>redirect\<close> child and without a \<open>text\<close> element, whose revision
  declares the model \<open>redirect\<close>, yields a record whose text is absent and whose model
  is \<open>"redirect"\<close>, and whose redirect is not set.
\<close>

theorem model_redirect_without_redirect_element:
  "iter_events ex_parser [ex_model_redirect_page] =
     ([\<lparr>title = Some ''Baz'', page_text = None, model = Some ''redirect'',
        ns_obj = \<lparr>ns = [], key = ''0''\<rparr>, redirect = None\<rparr>], ex_parser, None)"
  by (simp add: eval_defs fixture_defs)

subsection \<open>Iterating over a whole dump\<close>

text \<open>
  A record depends on the registry only through the entry of the page's own key, so a
  registry that keeps the entries of another gives the same record.
\<close>

lemma make_wikipage_Inr_key:
  "make_wikipage S elem = Inr p \<Longrightarrow>
   \<exists>k n. findtext [''ns''] elem = Some k \<and> key2ns S k = Some n"
  by (auto simp: make_wikipage_def Let_def split: option.splits)

lemma make_wikipage_agree:
  assumes "make_wikipage S elem = Inr p"
    and "\<And>k n. key2ns S k = Some n \<Longrightarrow> key2ns T k = Some n"
  shows "make_wikipage T elem = Inr p"
proof -
  from make_wikipage_Inr_key [OF assms(1)] obtain k n where
    k: "findtext [''ns''] elem = Some k" and n: "key2ns S k = Some n" by blast
  from assms(2) [OF n] k n assms(1) show ?thesis
    by (simp add: make_wikipage_def Let_def)
qed

lemma make_wikipage_mono:
  assumes "make_wikipage S elem = Inr p" and "key2ns S \<subseteq>\<^sub>m key2ns T"
  shows "make_wikipage T elem = Inr p"
  using assms(1)
proof (rule make_wikipage_agree)
  fix k n
  assume "key2ns S k = Some n"
  with assms(2) show "key2ns T k = Some n" by (metis domI map_le_def)
qed

lemma make_wikipage_well_formed:
  assumes "findtext [''ns''] elem = Some k" and "k \<in> dom (key2ns self)"
    and "case find_elem [''redirect''] elem of
           None \<Rightarrow> True
         | Some r \<Rightarrow> attrib r ''title'' \<noteq> None"
  shows "\<exists>p. make_wikipage self elem = Inr p"
  using assms by (auto simp: make_wikipage_def Let_def split: option.splits)

text \<open>
  The loop over well-formed events, from any parser whose registry holds exactly the keys
  declared so far: no exception, one record for each page element in order, one new key
  for each declaration.
\<close>

lemma iter_events_well_formed:
  assumes "well_formed_events (dom (key2ns self)) evs" and "finite (dom (key2ns self))"
  shows "\<exists>pages self'. iter_events self evs = (pages, self', None) \<and>
           key2ns self \<subseteq>\<^sub>m key2ns self' \<and> finite (dom (key2ns self')) \<and>
           list_all2 (\<lambda>p e. make_wikipage self' e = Inr p) pages
             (filter (\<lambda>e. tag e = page_tag) evs) \<and>
           card (dom (key2ns self')) =
             card (dom (key2ns self)) + length (filter (\<lambda>e. tag e = namespace_tag) evs)"
  using assms
proof (induction evs arbitrary: self)
  case Nil
  then show ?case by simp
next
  case (Cons e evs)
  consider (ns) "tag e = namespace_tag" | (page) "tag e = page_tag"
    | (other) "tag e \<noteq> namespace_tag" "tag e \<noteq> page_tag"
    by blast
  then show ?case
  proof cases
    case ns
    with Cons.prems(1) obtain k where k: "attrib e ''key'' = Some k"
      and fresh: "k \<notin> dom (key2ns self)"
      and wf: "well_formed_events (insert k (dom (key2ns self))) evs"
      by (auto split: option.splits)
    define n where "n = (case elem_text e of None \<Rightarrow> [] | Some s \<Rightarrow> s)"
    define self1 where
      "self1 = self\<lparr>key2ns := (key2ns self)(k \<mapsto> n), ns2key := (ns2key self)(n \<mapsto> k)\<rparr>"
    have add: "add_namespace self e = Inr self1"
      by (simp add: add_namespace_key k self1_def n_def)
    have dom1: "dom (key2ns self1) = insert k (dom (key2ns self))"
      by (simp add: self1_def)
    have le1: "key2ns self \<subseteq>\<^sub>m key2ns self1"
      using fresh by (auto simp: self1_def map_le_def)
    from wf dom1 have wf1: "well_formed_events (dom (key2ns self1)) evs" by simp
    from Cons.prems(2) dom1 have fin1: "finite (dom (key2ns self1))" by simp
    from Cons.IH [OF wf1 fin1] obtain pages self' where
      run: "iter_events self1 evs = (pages, self', None)" and
      le: "key2ns self1 \<subseteq>\<^sub>m key2ns self'" and fin: "finite (dom (key2ns self'))" and
      recs: "list_all2 (\<lambda>p e. make_wikipage self' e = Inr p) pages
               (filter (\<lambda>e. tag e = page_tag) evs)" and
      cnt: "card (dom (key2ns self')) =
              card (dom (key2ns self1)) + length (filter (\<lambda>e. tag e = namespace_tag) evs)"
      by blast
    have c1: "card (dom (key2ns self1)) = Suc (card (dom (key2ns self)))"
      using fresh Cons.prems(2) by (simp add: dom1)
    have "iter_events self (e # evs) = (pages, self', None)"
      using ns add run by (simp add: tag2fn_namespace)
    moreover have "key2ns self \<subseteq>\<^sub>m key2ns self'"
      using le1 le by (rule map_le_trans)
    ultimately show ?thesis
      using fin recs cnt c1 ns page_tag_neq by auto
  next
    case page
    with Cons.prems(1) page_tag_neq obtain k where k: "findtext [''ns''] e = Some k"
      and kd: "k \<in> dom (key2ns self)"
      and rd: "case find_elem [''redirect''] e of
                 None \<Rightarrow> True
               | Some r \<Rightarrow> attrib r ''title'' \<noteq> None"
      and wf: "well_formed_events (dom (key2ns self)) evs"
      by (auto split: option.splits)
    from make_wikipage_well_formed [OF k kd rd] obtain p where p: "make_wikipage self e = Inr p"
      by blast
    from Cons.IH [OF wf Cons.prems(2)] obtain pages self' where
      run: "iter_events self evs = (pages, self', None)" and
      le: "key2ns self \<subseteq>\<^sub>m key2ns self'" and fin: "finite (dom (key2ns self'))" and
      recs: "list_all2 (\<lambda>p e. make_wikipage self' e = Inr p) pages
               (filter (\<lambda>e. tag e = page_tag) evs)" and
      cnt: "card (dom (key2ns self')) =
              card (dom (key2ns self)) + length (filter (\<lambda>e. tag e = namespace_tag) evs)"
      by blast
    have "iter_events self (e # evs) = (p # pages, self', None)"
      using page p run by (simp add: tag2fn_page)
    moreover have "make_wikipage self' e = Inr p"
      using p le by (rule make_wikipage_mono)
    ultimately show ?thesis
      using le fin recs cnt page page_tag_neq by auto
  next
    case other
    with Cons.prems(1) have wf: "well_formed_events (dom (key2ns self)) evs" by simp
    from other have "tag2fn (tag e) = None" by (simp add: tag2fn_cases)
    with Cons.IH [OF wf Cons.prems(2)] other show ?thesis by auto
  qed
qed

text \<open>
  Claim C6. Iterating a fresh parser to exhaustion over a well-formed dump ends without
  an exception and yields exactly one record for each page element, in the order the
  page elements end in the document: the \<open>i\<close>-th record is the record of the \<open>i\<close>-th
  page element, so there are \<open>P\<close> records for \<open>P\<close> page elements. Afterwards the
  registry holds as many distinct keys as the dump has namespace declarations.
\<close>

theorem well_formed_dump_yields_every_page:
  assumes "well_formed_dump root"
  shows "\<exists>pages self'. DumpParser_iter init root = (pages, self', None) \<and>
           length pages = length (page_elements root) \<and>
           list_all2 (\<lambda>p e. make_wikipage self' e = Inr p) pages (page_elements root) \<and>
           card (dom (key2ns self')) = length (namespace_elements root)"
proof -
  have wf: "well_formed_events (dom (key2ns init)) (end_events root)"
    using assms by (simp add: well_formed_dump_def init_def)
  have fin: "finite (dom (key2ns init))" by (simp add: init_def)
  from iter_events_well_formed [OF wf fin] obtain pages self' where
    "iter_events init (end_events root) = (pages, self', None)"
    "list_all2 (\<lambda>p e. make_wikipage self' e = Inr p) pages
       (filter (\<lambda>e. tag e = page_tag) (end_events root))"
    "card (dom (key2ns self')) =
       card (dom (key2ns init)) + length (filter (\<lambda>e. tag e = namespace_tag) (end_events root))"
    by blast
  then show ?thesis
    by (auto simp: DumpParser_iter_def page_elements_def namespace_elements_def init_def
        dest: list_all2_lengthD)
qed

theorem well_formed_dump_yields_every_page_witness:
  "well_formed_dump ex_dump \<and>
   page_elements ex_dump = [ex_plain_page, ex_redirect_page] \<and>
   namespace_elements ex_dump = [ex_namespace_main, ex_namespace_talk] \<and>
   (\<exists>pages self'. DumpParser_iter init ex_dump = (pages, self', None) \<and>
      length pages = 2 \<and> card (dom (key2ns self')) = 2)"
proof -
  have wf: "well_formed_dump ex_dump"
    by (simp add: well_formed_dump_def eval_defs fixture_defs)
  have pg: "page_elements ex_dump = [ex_plain_page, ex_redirect_page]"
    by (simp add: page_elements_def eval_defs fixture_defs)
  have ns: "namespace_elements ex_dump = [ex_namespace_main, ex_namespace_talk]"
    by (simp add: namespace_elements_def eval_defs fixture_defs)
  from well_formed_dump_yields_every_page [OF wf] obtain pages self' where
    "DumpParser_iter init ex_dump = (pages, self', None)"
    "length pages = length (page_elements ex_dump)"
    "card (dom (key2ns self')) = length (namespace_elements ex_dump)"
    by blast
  with wf pg ns show ?thesis by simp
qed

subsection \<open>Iterating twice, and what a record depends on\<close>

text \<open>
  A second run over the same events, started from the registry the first run ended with
  overwritten by the registry the first run has at this point, does what the first run
  does from here on.
\<close>

lemma iter_events_rerun:
  fixes S T S' :: DumpParser
  assumes "iter_events S evs = (ps, S', r)"
    and "key2ns T = key2ns S' ++ key2ns S" and "ns2key T = ns2key S' ++ ns2key S"
  shows "iter_events T evs = (ps, S', r)"
  using assms
proof (induction evs arbitrary: S T ps)
  case Nil
  then have eq: "S' = S" "ps = []" "r = None" by simp_all
  with Nil.prems have "T = S" by (intro DumpParser_eqI) (simp_all add: map_add_self)
  with eq show ?case by simp
next
  case (Cons e evs)
  consider (ns) "tag e = namespace_tag" | (page) "tag e = page_tag"
    | (other) "tag e \<noteq> namespace_tag" "tag e \<noteq> page_tag"
    by blast
  then show ?case
  proof cases
    case ns
    show ?thesis
    proof (cases "attrib e ''key''")
      case None
      with ns Cons.prems(1) have eq: "S' = S" "ps = []" "r = Some (KeyError (Some ''key''))"
        by (simp_all add: tag2fn_namespace add_namespace_no_key)
      with Cons.prems have "T = S"
        by (intro DumpParser_eqI) (simp_all add: map_add_self)
      with eq ns None show ?thesis
        by (simp add: tag2fn_namespace add_namespace_no_key)
    next
      case (Some k)
      define n where "n = (case elem_text e of None \<Rightarrow> [] | Some s \<Rightarrow> s)"
      define S1 where
        "S1 = S\<lparr>key2ns := (key2ns S)(k \<mapsto> n), ns2key := (ns2key S)(n \<mapsto> k)\<rparr>"
      define T1 where
        "T1 = T\<lparr>key2ns := (key2ns T)(k \<mapsto> n), ns2key := (ns2key T)(n \<mapsto> k)\<rparr>"
      have addS: "add_namespace S e = Inr S1" and addT: "add_namespace T e = Inr T1"
        by (simp_all add: add_namespace_key Some S1_def T1_def n_def)
      from Cons.prems(1) ns addS have run: "iter_events S1 evs = (ps, S', r)"
        by (simp add: tag2fn_namespace)
      have "key2ns T1 = key2ns S' ++ key2ns S1" "ns2key T1 = ns2key S' ++ ns2key S1"
        using Cons.prems(2,3) by (simp_all add: S1_def T1_def)
      from Cons.IH [OF run this] ns addT show ?thesis
        by (simp add: tag2fn_namespace)
    qed
  next
    case page
    show ?thesis
    proof (cases "make_wikipage S e")
      case (Inl err)
      with page Cons.prems(1) have eq: "S' = S" "ps = []" "r = Some err"
        by (simp_all add: tag2fn_page)
      with Cons.prems have "T = S"
        by (intro DumpParser_eqI) (simp_all add: map_add_self)
      with eq page Inl show ?thesis by (simp add: tag2fn_page)
    next
      case (Inr p)
      with page Cons.prems(1) obtain qs where
        run: "iter_events S evs = (qs, S', r)" and ps: "ps = p # qs"
        by (auto simp: tag2fn_page split: prod.splits)
      have "make_wikipage T e = Inr p"
        using Inr by (rule make_wikipage_agree) (simp add: Cons.prems(2))
      moreover note Cons.IH [OF run Cons.prems(2,3)]
      ultimately show ?thesis using page ps by (simp add: tag2fn_page)
    qed
  next
    case other
    then have none: "tag2fn (tag e) = None" by (simp add: tag2fn_cases)
    with Cons.prems(1) have "iter_events S evs = (ps, S', r)" by simp
    from Cons.IH [OF this Cons.prems(2,3)] none show ?thesis by simp
  qed
qed

text \<open>
  The parser a run without exception ends with is the one its namespace declarations
  alone produce: pages and other elements leave no trace in it.
\<close>

lemma iter_events_only_namespaces:
  "iter_events S evs = (ps, S', None) \<Longrightarrow>
   iter_events S (filter (\<lambda>e. tag e = namespace_tag) evs) = ([], S', None)"
proof (induction evs arbitrary: S ps)
  case Nil
  then show ?case by simp
next
  case (Cons e evs)
  consider (ns) "tag e = namespace_tag" | (page) "tag e = page_tag"
    | (other) "tag e \<noteq> namespace_tag" "tag e \<noteq> page_tag"
    by blast
  then show ?case
  proof cases
    case ns
    with Cons show ?thesis by (auto simp: tag2fn_namespace split: sum.splits)
  next
    case page
    with Cons.prems obtain qs where "iter_events S evs = (qs, S', None)"
      by (auto simp: tag2fn_page split: sum.splits prod.splits)
    from Cons.IH [OF this] page page_tag_neq show ?thesis by simp
  next
    case other
    with Cons show ?thesis by (simp add: tag2fn_cases)
  qed
qed

text \<open>
  Claim C10. Iteration is a function of the parsed document, and more: iterating the
  same parser object a second time over the same document, with the registry the first
  iteration of a fresh parser left in it, yields the same records, ends with the same
  exception if the first did, and leaves the same registry. And what a page element
  contributes to the iteration (its record, or the exception it raises) is determined by
  the element and the namespace declarations before it: after two prefixes of events
  that got through without exception and hold the same namespace declarations in the
  same order, whatever pages and other elements they hold, the parser is the same and the
  page element yields the same record or raises the same exception.
\<close>

theorem iteration_deterministic_and_page_independent:
  "(DumpParser_iter init root = (ps, self', r) \<longrightarrow>
      DumpParser_iter self' root = (ps, self', r)) \<and>
   (iter_events init pre1 = (ps1, s1, None) \<and> iter_events init pre2 = (ps2, s2, None) \<and>
    filter (\<lambda>e. tag e = namespace_tag) pre1 = filter (\<lambda>e. tag e = namespace_tag) pre2 \<and>
    tag elem = page_tag \<longrightarrow>
      s1 = s2 \<and>
      (\<exists>recs raised.
         (case make_wikipage s1 elem of
            Inl err \<Rightarrow> recs = [] \<and> raised = Some err
          | Inr p \<Rightarrow> recs = [p] \<and> raised = None) \<and>
         iter_events init (pre1 @ [elem]) = (ps1 @ recs, s1, raised) \<and>
         iter_events init (pre2 @ [elem]) = (ps2 @ recs, s2, raised)))"
proof (intro conjI impI)
  assume run: "DumpParser_iter init root = (ps, self', r)"
  then have "iter_events init (end_events root) = (ps, self', r)"
    by (simp add: DumpParser_iter_def)
  then have "iter_events self' (end_events root) = (ps, self', r)"
    by (rule iter_events_rerun) (simp_all add: init_def)
  then show "DumpParser_iter self' root = (ps, self', r)"
    by (simp add: DumpParser_iter_def)
next
  assume a: "iter_events init pre1 = (ps1, s1, None) \<and> iter_events init pre2 = (ps2, s2, None) \<and>
    filter (\<lambda>e. tag e = namespace_tag) pre1 = filter (\<lambda>e. tag e = namespace_tag) pre2 \<and>
    tag elem = page_tag"
  then have r1: "iter_events init pre1 = (ps1, s1, None)"
    and r2: "iter_events init pre2 = (ps2, s2, None)"
    and same: "filter (\<lambda>e. tag e = namespace_tag) pre1 = filter (\<lambda>e. tag e = namespace_tag) pre2"
    by simp_all
  from iter_events_only_namespaces [OF r1] iter_events_only_namespaces [OF r2] same
  show "s1 = s2" by simp
next
  assume a: "iter_events init pre1 = (ps1, s1, None) \<and> iter_events init pre2 = (ps2, s2, None) \<and>
    filter (\<lambda>e. tag e = namespace_tag) pre1 = filter (\<lambda>e. tag e = namespace_tag) pre2 \<and>
    tag elem = page_tag"
  then have r1: "iter_events init pre1 = (ps1, s1, None)"
    and r2: "iter_events init pre2 = (ps2, s2, None)"
    and same: "filter (\<lambda>e. tag e = namespace_tag) pre1 = filter (\<lambda>e. tag e = namespace_tag) pre2"
    and pg: "tag elem = page_tag"
    by simp_all
  from iter_events_only_namespaces [OF r1] iter_events_only_namespaces [OF r2] same
  have eq: "s1 = s2" by simp
  show "\<exists>recs raised.
         (case make_wikipage s1 elem of
            Inl err \<Rightarrow> recs = [] \<and> raised = Some err
          | Inr p \<Rightarrow> recs = [p] \<and> raised = None) \<and>
         iter_events init (pre1 @ [elem]) = (ps1 @ recs, s1, raised) \<and>
         iter_events init (pre2 @ [elem]) = (ps2 @ recs, s2, raised)"
  proof (cases "make_wikipage s1 elem")
    case (Inl err)
    with iter_events_page_last [OF r1 pg] iter_events_page_last [OF r2 pg] eq
    show ?thesis by simp
  next
    case (Inr p)
    with iter_events_page_last [OF r1 pg] iter_events_page_last [OF r2 pg] eq
    show ?thesis by simp
  qed
qed

theorem iteration_deterministic_and_page_independent_witness:
  "DumpParser_iter init ex_dump =
     ([\<lparr>title = Some ''Foo'', page_text = Some ''BODY'', model = Some ''wikitext'',
        ns_obj = \<lparr>ns = [], key = ''0''\<rparr>, redirect = None\<rparr>,
       \<lparr>title = Some ''Bar'', page_text = Some ''#REDIRECT [[X]]'', model = Some ''redirect'',
        ns_obj = \<lparr>ns = [], key = ''0''\<rparr>, redirect = Some ''X''\<rparr>], ex_parser_talk, None) \<and>
   DumpParser_iter ex_parser_talk ex_dump =
     ([\<lparr>title = Some ''Foo'', page_text = Some ''BODY'', model = Some ''wikitext'',
        ns_obj = \<lparr>ns = [], key = ''0''\<rparr>, redirect = None\<rparr>,
       \<lparr>title = Some ''Bar'', page_text = Some ''#REDIRECT [[X]]'', model = Some ''redirect'',
        ns_obj = \<lparr>ns = [], key = ''0''\<rparr>, redirect = Some ''X''\<rparr>], ex_parser_talk, None) \<and>
   iter_events init [ex_namespace_main, ex_plain_page] =
     ([\<lparr>title = Some ''Foo'', page_text = Some ''BODY'', model = Some ''wikitext'',
        ns_obj = \<lparr>ns = [], key = ''0''\<rparr>, redirect = None\<rparr>], ex_parser, None) \<and>
   iter_events init [leaf ''sitename'' None, ex_namespace_main] = ([], ex_parser, None) \<and>
   tag ex_redirect_page = page_tag \<and>
   iter_events init ([ex_namespace_main, ex_plain_page] @ [ex_redirect_page]) =
     ([\<lparr>title = Some ''Foo'', page_text = Some ''BODY'', model = Some ''wikitext'',
        ns_obj = \<lparr>ns = [], key = ''0''\<rparr>, redirect = None\<rparr>] @
      [\<lparr>title = Some ''Bar'', page_text = Some ''#REDIRECT [[X]]'', model = Some ''redirect'',
        ns_obj = \<lparr>ns = [], key = ''0''\<rparr>, redirect = Some ''X''\<rparr>], ex_parser, None) \<and>
   iter_events init ([leaf ''sitename'' None, ex_namespace_main] @ [ex_redirect_page]) =
     ([] @
      [\<lparr>title = Some ''Bar'', page_text = Some ''#REDIRECT [[X]]'', model = Some ''redirect'',
        ns_obj = \<lparr>ns = [], key = ''0''\<rparr>, redirect = Some ''X''\<rparr>], ex_parser, None)"
proof -
  let ?foo = "\<lparr>title = Some ''Foo'', page_text = Some ''BODY'', model = Some ''wikitext'',
        ns_obj = \<lparr>ns = [], key = ''0''\<rparr>, redirect = None\<rparr>"
  let ?bar = "\<lparr>title = Some ''Bar'', page_text = Some ''#REDIRECT [[X]]'',
        model = Some ''redirect'', ns_obj = \<lparr>ns = [], key = ''0''\<rparr>, redirect = Some ''X''\<rparr>"
  let ?pre1 = "[ex_namespace_main, ex_plain_page]"
  let ?pre2 = "[leaf ''sitename'' None, ex_namespace_main]"
  have first: "DumpParser_iter init ex_dump = ([?foo, ?bar], ex_parser_talk, None)"
    by (simp add: DumpParser_iter_def eval_defs fixture_defs)
  have r1: "iter_events init ?pre1 = ([?foo], ex_parser, None)"
    by (simp add: eval_defs fixture_defs)
  have r2: "iter_events init ?pre2 = ([], ex_parser, None)"
    by (simp add: eval_defs fixture_defs)
  have same: "filter (\<lambda>e. tag e = namespace_tag) ?pre1 = filter (\<lambda>e. tag e = namespace_tag) ?pre2"
    by (simp add: eval_defs fixture_defs)
  have pg: "tag ex_redirect_page = page_tag"
    by (simp add: eval_defs fixture_defs)
  have mk: "make_wikipage ex_parser ex_redirect_page = Inr ?bar"
    by (simp add: eval_defs fixture_defs)
  note inst = iteration_deterministic_and_page_independent
    [of ex_dump "[?foo, ?bar]" ex_parser_talk None ?pre1 "[?foo]" ex_parser ?pre2 "[]" ex_parser
      ex_redirect_page]
  from inst first have second: "DumpParser_iter ex_parser_talk ex_dump = ([?foo, ?bar], ex_parser_talk, None)"
    by blast
  from inst r1 r2 same pg obtain recs raised where
    c: "case make_wikipage ex_parser ex_redirect_page of
          Inl err \<Rightarrow> recs = [] \<and> raised = Some err
        | Inr p \<Rightarrow> recs = [p] \<and> raised = None"
    and a1: "iter_events init (?pre1 @ [ex_redirect_page]) = ([?foo] @ recs, ex_parser, raised)"
    and a2: "iter_events init (?pre2 @ [ex_redirect_page]) = ([] @ recs, ex_parser, raised)"
    by blast
  from c mk have "recs = [?bar]" "raised = None" by simp_all
  with a1 a2 have
    "iter_events init (?pre1 @ [ex_redirect_page]) = ([?foo] @ [?bar], ex_parser, None)"
    "iter_events init (?pre2 @ [ex_redirect_page]) = ([] @ [?bar], ex_parser, None)"
    by simp_all
  with first second r1 r2 pg show ?thesis by blast
qed

end
